theory Spec2Isabelle
  imports Main
begin

section \<open>The preview manager of the SVG previewer\<close>

text \<open>
  A shallow embedding of \<^verbatim>\<open>src/features/previewManager.ts\<close>. The class
  \<^verbatim>\<open>PreviewManager\<close> keeps an array of \<^verbatim>\<open>Preview\<close> objects, a pointer to
  the preview that holds focus, and publishes a context key to the host. Its methods and
  the callbacks it subscribes are modelled as functions on a record \<open>world\<close> that holds
  the two fields of the manager together with the part of the host they read or write:
  the context keys, the \<^verbatim>\<open>Preview\<close> objects (a store from object identities to their
  fields), the calls the previews received, the telemetry sent, the active text editor
  and the \<^verbatim>\<open>svg.preview.autoOpen\<close> setting.
\<close>

subsection \<open>Data\<close>

text \<open>A \<^verbatim>\<open>vscode.Uri\<close>, by the two projections the manager compares.\<close>

record Uri =
  toString :: string
  fsPath :: string

text \<open>
  \<^verbatim>\<open>vscode.ViewColumn\<close> is a numeric enum: \<^verbatim>\<open>Active = -1\<close>, \<^verbatim>\<open>Beside = -2\<close>,
  \<^verbatim>\<open>One = 1\<close> ... \<^verbatim>\<open>Nine = 9\<close>. A \<^verbatim>\<open>viewColumn\<close> property of an editor or a
  panel may be \<^verbatim>\<open>undefined\<close>, which is \<open>None\<close> here.
\<close>

definition ViewColumn_Active :: int where
  "ViewColumn_Active = - 1"

definition ViewColumn_Beside :: int where
  "ViewColumn_Beside = - 2"

record TextEditor =
  document_uri :: Uri
  editor_viewColumn :: "int option"

text \<open>
  A \<^verbatim>\<open>Preview\<close> is an object: the manager holds references to it, here natural
  numbers. Its fields \<^verbatim>\<open>source\<close> and \<^verbatim>\<open>panel.viewColumn\<close> live in the store.
\<close>

type_synonym PreviewRef = nat

record Preview =
  source :: Uri
  panel_viewColumn :: "int option"

text \<open>The two methods the manager calls on a preview, as entries of a call log.\<close>

datatype PreviewCall = Update "Uri option" | Reveal "int option"

datatype TelemetryEvents = TELEMETRY_EVENT_SHOW_PREVIEW_TO_SIDE

datatype error = TypeError

record world =
  previews :: "PreviewRef list"
  activePreview :: "PreviewRef option"
  contextKeys :: "string \<rightharpoonup> bool"
  objects :: "PreviewRef \<Rightarrow> Preview"
  received :: "(PreviewRef \<times> PreviewCall) list"
  telemetry :: "(TelemetryEvents \<times> (string \<times> string) list) list"
  activeTextEditor :: "TextEditor option"
  autoOpen :: "bool option"

subsection \<open>Array operations of JavaScript\<close>

text \<open>
  \<^verbatim>\<open>Array.prototype.indexOf\<close>: the first index of the element, \<open>-1\<close> when it is
  absent. \<^verbatim>\<open>Array.prototype.splice(start, 1)\<close>: a negative \<open>start\<close> counts from the
  end (\<open>max (len + start) 0\<close>), a large one is cut to the length, and one element is
  removed there when there is one.
\<close>

fun indexOf :: "'a list \<Rightarrow> 'a \<Rightarrow> int" where
  "indexOf [] y = - 1"
| "indexOf (x # xs) y =
     (if x = y then 0 else (let i = indexOf xs y in if i < 0 then - 1 else i + 1))"

definition splice1 :: "int \<Rightarrow> 'a list \<Rightarrow> 'a list" where
  "splice1 start xs =
     (let len = int (length xs);
          k = (if start < 0 then max (len + start) 0 else min start len)
      in take (nat k) xs @ drop (nat k + 1) xs)"

subsection \<open>The collaborator \<^verbatim>\<open>Preview\<close>\<close>

text \<open>
  Modelled from the spec: \<^verbatim>\<open>Preview.create\<close> and \<^verbatim>\<open>Preview.revive\<close> (file
  \<^verbatim>\<open>previewPanel.ts\<close>) return a new \<^verbatim>\<open>Preview\<close> whose \<^verbatim>\<open>source\<close> is the given
  URI. The identity of the new object and the column the host puts its panel in are
  chosen by the host: they are the pair \<open>np\<close>.
\<close>

definition Preview_create :: "world \<Rightarrow> Uri \<Rightarrow> PreviewRef \<times> int option \<Rightarrow> world" where
  "Preview_create s uri np =
     s\<lparr>objects := (objects s)(fst np := \<lparr>source = uri, panel_viewColumn = snd np\<rparr>)\<rparr>"

text \<open>
  Modelled from the spec: \<^verbatim>\<open>Preview.update(uri?)\<close> re-renders, against a new source
  when one is given. The call is recorded in \<open>received\<close>.
\<close>

definition Preview_update :: "world \<Rightarrow> PreviewRef \<Rightarrow> Uri option \<Rightarrow> world" where
  "Preview_update s p resource =
     s\<lparr>objects := (case resource of
                      None \<Rightarrow> objects s
                    | Some uri \<Rightarrow> (objects s)(p := (objects s p)\<lparr>source := uri\<rparr>)),
       received := received s @ [(p, Update resource)]\<rparr>"

text \<open>\<^verbatim>\<open>preview.panel.reveal(column)\<close>: recorded; the host raises the panel.\<close>

definition panel_reveal :: "world \<Rightarrow> PreviewRef \<Rightarrow> int option \<Rightarrow> world" where
  "panel_reveal s p col = s\<lparr>received := received s @ [(p, Reveal col)]\<rparr>"

subsection \<open>Focus\<close>

definition svgPreviewFocusContextKey :: string where
  "svgPreviewFocusContextKey = ''svgPreviewFocus''"

definition setSvgPreviewFocusContext :: "world \<Rightarrow> bool \<Rightarrow> world" where
  "setSvgPreviewFocusContext s v =
     s\<lparr>contextKeys := (contextKeys s)(svgPreviewFocusContextKey \<mapsto> v)\<rparr>"

definition onPreviewFocus :: "world \<Rightarrow> PreviewRef \<Rightarrow> world" where
  "onPreviewFocus s preview = setSvgPreviewFocusContext (s\<lparr>activePreview := Some preview\<rparr>) True"

definition onPreviewBlur :: "world \<Rightarrow> world" where
  "onPreviewBlur s = setSvgPreviewFocusContext (s\<lparr>activePreview := None\<rparr>) False"

text \<open>The flag as the host reads it: a key never set is not true.\<close>

definition focusFlag :: "world \<Rightarrow> bool" where
  "focusFlag s = (contextKeys s svgPreviewFocusContextKey = Some True)"

subsection \<open>Registration and the two callbacks of a preview\<close>

text \<open>
  \<^verbatim>\<open>registerPreview\<close> pushes the preview, gives it focus and subscribes two callbacks.
  The callbacks are the functions \<open>onDispose\<close> and \<open>onDidChangeViewState\<close> below; the
  preview fires them later, as events.
\<close>

definition registerPreview :: "world \<Rightarrow> PreviewRef \<Rightarrow> world" where
  "registerPreview s preview = onPreviewFocus (s\<lparr>previews := previews s @ [preview]\<rparr>) preview"

definition onDispose :: "world \<Rightarrow> PreviewRef \<Rightarrow> world" where
  "onDispose s preview =
     (let s1 = onPreviewBlur s
      in s1\<lparr>previews := splice1 (indexOf (previews s1) preview) (previews s1)\<rparr>)"

definition onDidChangeViewState :: "world \<Rightarrow> PreviewRef \<Rightarrow> bool \<Rightarrow> world" where
  "onDidChangeViewState s preview active =
     (if active then onPreviewFocus s preview else onPreviewBlur s)"

subsection \<open>Lookups\<close>

text \<open>
  \<^verbatim>\<open>undefined === undefined\<close> holds, so an editor without a column matches a panel
  without one; \<^verbatim>\<open>undefined + 1\<close> is \<^verbatim>\<open>NaN\<close>, which is equal to nothing.
\<close>

definition getPreviewOnTargetColumn :: "world \<Rightarrow> int \<Rightarrow> PreviewRef option" where
  "getPreviewOnTargetColumn s viewColumn =
     (let activeViewColumn =
            (case activeTextEditor s of
               Some editor \<Rightarrow> editor_viewColumn editor
             | None \<Rightarrow> Some ViewColumn_Active)
      in if viewColumn = ViewColumn_Active
         then List.find (\<lambda>preview. panel_viewColumn (objects s preview) = activeViewColumn)
                (previews s)
         else (case activeViewColumn of
                 None \<Rightarrow> None
               | Some c \<Rightarrow>
                   List.find (\<lambda>preview. panel_viewColumn (objects s preview) = Some (c + 1))
                     (previews s)))"

definition getPreviewOf :: "world \<Rightarrow> Uri \<Rightarrow> PreviewRef option" where
  "getPreviewOf s resource =
     List.find (\<lambda>p. fsPath (source (objects s p)) = fsPath resource) (previews s)"

definition isActivePreviewUri :: "world \<Rightarrow> Uri \<Rightarrow> bool" where
  "isActivePreviewUri s uri =
     (case activePreview s of
        None \<Rightarrow> False
      | Some p \<Rightarrow> toString (source (objects s p)) = toString uri)"

text \<open>
  \<^verbatim>\<open>isSvgUri\<close> comes from \<^verbatim>\<open>../utils\<close>; it is a parameter. The setting is read with
  \<^verbatim>\<open>get('preview.autoOpen')\<close>, \<^verbatim>\<open>undefined\<close> when absent, and used for its truth.
\<close>

definition shouldAutoOpenPreviewForEditor :: "(Uri \<Rightarrow> bool) \<Rightarrow> world \<Rightarrow> TextEditor \<Rightarrow> bool" where
  "shouldAutoOpenPreviewForEditor isSvgUri s editor =
     (let isAutoOpen = (autoOpen s = Some True)
      in isAutoOpen \<and> isSvgUri (document_uri editor) \<and> getPreviewOf s (document_uri editor) = None)"

definition logAutoOpenPreviewEvent :: "world \<Rightarrow> world" where
  "logAutoOpenPreviewEvent s =
     s\<lparr>telemetry := telemetry s @ [(TELEMETRY_EVENT_SHOW_PREVIEW_TO_SIDE, [(''autoOpen'', ''yes'')])]\<rparr>"

subsection \<open>The public methods\<close>

definition createPreview :: "world \<Rightarrow> Uri \<Rightarrow> PreviewRef \<times> int option \<Rightarrow> world" where
  "createPreview s uri np = registerPreview (Preview_create s uri np) (fst np)"

text \<open>
  \<^verbatim>\<open>createPreview\<close> above is what the method does once \<^verbatim>\<open>await Preview.create\<close> has
  resolved, to the preview \<open>np\<close>, in the world of that moment.

  \<^verbatim>\<open>showPreview\<close> is \<^verbatim>\<open>async\<close> too. Its first line looks a preview up and, only when
  there is none, awaits \<^verbatim>\<open>createPreview\<close>; the two lines after it are
  \<open>showPreview_continue\<close>. \<open>showPreview_enter\<close> is the call up to its first
  \<^verbatim>\<open>await\<close>: with a preview found no \<^verbatim>\<open>await\<close> is reached and the call runs to its
  end; with none found the manager has written nothing yet and a creation for the URI is
  pending, the second component. \<open>showPreview_resume\<close> is the rest of a call whose
  creation was pending, run in the world of the moment \<^verbatim>\<open>Preview.create\<close> resolves.
\<close>

definition showPreview_continue :: "world \<Rightarrow> PreviewRef \<Rightarrow> Uri \<Rightarrow> world" where
  "showPreview_continue s preview uri =
     (let s2 = Preview_update s preview (Some uri)
      in panel_reveal s2 preview (panel_viewColumn (objects s2 preview)))"

definition showPreview_enter :: "world \<Rightarrow> Uri \<Rightarrow> int \<Rightarrow> world \<times> Uri option" where
  "showPreview_enter s uri viewColumn =
     (case getPreviewOnTargetColumn s viewColumn of
        Some p \<Rightarrow> (showPreview_continue s p uri, None)
      | None \<Rightarrow> (s, Some uri))"

definition showPreview_resume :: "world \<Rightarrow> Uri \<Rightarrow> PreviewRef \<times> int option \<Rightarrow> world" where
  "showPreview_resume s uri np = showPreview_continue (createPreview s uri np) (fst np) uri"

text \<open>
  \<open>showPreview\<close> is a call during which nothing else runs: a pending creation resolves
  at once. \<open>showPreview_target\<close> is the preview such a call goes on with.
\<close>

definition showPreview_target :: "world \<Rightarrow> int \<Rightarrow> PreviewRef \<times> int option \<Rightarrow> PreviewRef" where
  "showPreview_target s viewColumn np =
     (case getPreviewOnTargetColumn s viewColumn of Some p \<Rightarrow> p | None \<Rightarrow> fst np)"

definition showPreview :: "world \<Rightarrow> Uri \<Rightarrow> int \<Rightarrow> PreviewRef \<times> int option \<Rightarrow> world" where
  "showPreview s uri viewColumn np =
     (case showPreview_enter s uri viewColumn of
        (s1, None) \<Rightarrow> s1
      | (s1, Some pending) \<Rightarrow> showPreview_resume s1 pending np)"

text \<open>
  Two calls for the same token of which the second is entered before the creation of the
  first has resolved: both run up to their \<^verbatim>\<open>await\<close>, then the creation of the first
  resolves, to \<open>np\<close>, then that of the second, to \<open>np'\<close>.
\<close>

definition showPreview_overlapped ::
  "world \<Rightarrow> Uri \<Rightarrow> Uri \<Rightarrow> int \<Rightarrow> PreviewRef \<times> int option \<Rightarrow> PreviewRef \<times> int option \<Rightarrow> world" where
  "showPreview_overlapped s uri uri' viewColumn np np' =
     (let (s1, r1) = showPreview_enter s uri viewColumn;
          (s2, r2) = showPreview_enter s1 uri' viewColumn;
          s3 = (case r1 of None \<Rightarrow> s2 | Some pending \<Rightarrow> showPreview_resume s2 pending np)
      in case r2 of None \<Rightarrow> s3 | Some pending \<Rightarrow> showPreview_resume s3 pending np')"

text \<open>
  \<^verbatim>\<open>showSource\<close> reads \<^verbatim>\<open>this._activePreview!.source\<close>: the \<^verbatim>\<open>!\<close> is erased by the
  compiler, so with no active preview the property read throws a \<^verbatim>\<open>TypeError\<close>
  before \<^verbatim>\<open>openTextDocument\<close> is called. Otherwise the result is the URI that
  \<^verbatim>\<open>openTextDocument\<close> is called with.
\<close>

definition showSource :: "world \<Rightarrow> error + Uri" where
  "showSource s =
     (case activePreview s of
        None \<Rightarrow> Inl TypeError
      | Some p \<Rightarrow> Inr (source (objects s p)))"

text \<open>
  \<^verbatim>\<open>deserializeWebviewPanel\<close>, with \<open>src\<close> the URI that \<^verbatim>\<open>Uri.parse(state.uri)\<close>
  returned and \<open>np\<close> the revived preview. A string that does not parse makes the method
  reject before it writes anything.
\<close>

definition deserializeWebviewPanel :: "world \<Rightarrow> Uri \<Rightarrow> PreviewRef \<times> int option \<Rightarrow> world" where
  "deserializeWebviewPanel s src np =
     Preview_update (registerPreview (Preview_create s src np) (fst np)) (fst np) None"

subsection \<open>The host's events\<close>

definition onDidChangeActiveTextEditor ::
  "(Uri \<Rightarrow> bool) \<Rightarrow> world \<Rightarrow> TextEditor option \<Rightarrow> PreviewRef \<times> int option \<Rightarrow> world" where
  "onDidChangeActiveTextEditor isSvgUri s editor np =
     (case editor of
        None \<Rightarrow> s
      | Some ed \<Rightarrow>
          (let s1 = (if isSvgUri (document_uri ed) \<and> \<not> isActivePreviewUri s (document_uri ed)
                     then foldl (\<lambda>w preview. Preview_update w preview (Some (document_uri ed)))
                            s (previews s)
                     else s)
           in if shouldAutoOpenPreviewForEditor isSvgUri s1 ed
              then showPreview (logAutoOpenPreviewEvent s1) (document_uri ed) ViewColumn_Beside np
              else s1))"

definition onDidChangeTextDocument :: "world \<Rightarrow> Uri \<Rightarrow> world" where
  "onDidChangeTextDocument s uri =
     (case getPreviewOf s uri of
        Some preview \<Rightarrow> Preview_update s preview None
      | None \<Rightarrow> s)"

subsection \<open>Construction\<close>

text \<open>
  The fields as the class initialises them, in a host with the given active editor and
  setting, no context key set and no preview object yet.
\<close>

definition blank :: Preview where
  "blank = \<lparr>source = \<lparr>toString = [], fsPath = []\<rparr>, panel_viewColumn = None\<rparr>"

definition initial :: "TextEditor option \<Rightarrow> bool option \<Rightarrow> world" where
  "initial editor cfg =
     \<lparr>previews = [], activePreview = None, contextKeys = Map.empty, objects = (\<lambda>_. blank),
      received = [], telemetry = [], activeTextEditor = editor, autoOpen = cfg\<rparr>"

definition constructor ::
  "(Uri \<Rightarrow> bool) \<Rightarrow> TextEditor option \<Rightarrow> bool option \<Rightarrow> PreviewRef \<times> int option \<Rightarrow> world" where
  "constructor isSvgUri editor cfg np =
     (let s = initial editor cfg
      in case activeTextEditor s of
           None \<Rightarrow> s
         | Some ed \<Rightarrow>
             if shouldAutoOpenPreviewForEditor isSvgUri s ed
             then showPreview (logAutoOpenPreviewEvent s) (document_uri ed) ViewColumn_Beside np
             else s)"

subsection \<open>Runs\<close>

text \<open>
  What can happen to a constructed manager: a call of a public method, a host event it
  subscribed, a callback of a preview, or a change of the host state it reads (the
  setting, the column of a panel). \<open>PreviewDisposed p\<close> and \<open>PreviewViewState p active\<close>
  are one run of the callback that \<^verbatim>\<open>registerPreview\<close> subscribed to \<^verbatim>\<open>onDispose\<close> and
  to \<^verbatim>\<open>onDidChangeViewState\<close> of \<open>p\<close>, with \<^verbatim>\<open>webviewPanel.active\<close> being \<open>active\<close>;
  when and how often a preview fires them is the collaborator's business, so a run may
  hold them for any preview at any place. The method \<^verbatim>\<open>dispose\<close> writes no field of the
  manager and ends its life; the disposal callbacks it sets off are \<open>PreviewDisposed\<close>
  events. An \<^verbatim>\<open>async\<close> method is one event, run to its end.
\<close>

datatype event =
    ShowPreview Uri int "PreviewRef \<times> int option"
  | ShowSource
  | DeserializeWebviewPanel Uri "PreviewRef \<times> int option"
  | DidChangeActiveTextEditor "TextEditor option" "PreviewRef \<times> int option"
  | DidChangeTextDocument Uri
  | PreviewDisposed PreviewRef
  | PreviewViewState PreviewRef bool
  | ConfigurationChanged "bool option"
  | PanelMoved PreviewRef "int option"

fun step :: "(Uri \<Rightarrow> bool) \<Rightarrow> world \<Rightarrow> event \<Rightarrow> world" where
  "step isSvgUri s (ShowPreview uri viewColumn np) = showPreview s uri viewColumn np"
| "step isSvgUri s ShowSource = s"
| "step isSvgUri s (DeserializeWebviewPanel src np) = deserializeWebviewPanel s src np"
| "step isSvgUri s (DidChangeActiveTextEditor editor np) =
     onDidChangeActiveTextEditor isSvgUri (s\<lparr>activeTextEditor := editor\<rparr>) editor np"
| "step isSvgUri s (DidChangeTextDocument uri) = onDidChangeTextDocument s uri"
| "step isSvgUri s (PreviewDisposed p) = onDispose s p"
| "step isSvgUri s (PreviewViewState p active) = onDidChangeViewState s p active"
| "step isSvgUri s (ConfigurationChanged cfg) = s\<lparr>autoOpen := cfg\<rparr>"
| "step isSvgUri s (PanelMoved p col) =
     s\<lparr>objects := (objects s)(p := (objects s p)\<lparr>panel_viewColumn := col\<rparr>)\<rparr>"

definition run :: "(Uri \<Rightarrow> bool) \<Rightarrow> world \<Rightarrow> event list \<Rightarrow> world" where
  "run isSvgUri s evs = foldl (step isSvgUri) s evs"

subsection \<open>Notions the properties are stated with\<close>

text \<open>
  The test of the two \<^verbatim>\<open>find\<close> calls of \<^verbatim>\<open>getPreviewOnTargetColumn\<close>, as a
  predicate on the column of a panel: \<open>col\<close> is the column the token resolves to.
\<close>

definition onTargetColumn :: "world \<Rightarrow> int \<Rightarrow> int option \<Rightarrow> bool" where
  "onTargetColumn s viewColumn col =
     (let activeViewColumn =
            (case activeTextEditor s of
               Some editor \<Rightarrow> editor_viewColumn editor
             | None \<Rightarrow> Some ViewColumn_Active)
      in if viewColumn = ViewColumn_Active then col = activeViewColumn
         else (case activeViewColumn of None \<Rightarrow> False | Some c \<Rightarrow> col = Some (c + 1)))"

text \<open>No dangling focus: the active preview, when there is one, is in the array.\<close>

definition noDangling :: "world \<Rightarrow> bool" where
  "noDangling s = (set_option (activePreview s) \<subseteq> set (previews s))"

text \<open>
  A sequence of events in which every view-state event that reports its panel active is
  fired by a preview that is in the array when it fires.
\<close>

fun viewStateFromTracked :: "(Uri \<Rightarrow> bool) \<Rightarrow> world \<Rightarrow> event list \<Rightarrow> bool" where
  "viewStateFromTracked isSvgUri s [] = True"
| "viewStateFromTracked isSvgUri s (e # es) =
     ((case e of
         PreviewViewState p active \<Rightarrow> (if active then p \<in> set (previews s) else True)
       | _ \<Rightarrow> True)
      \<and> viewStateFromTracked isSvgUri (step isSvgUri s e) es)"

subsection \<open>Concrete hosts\<close>

definition svgA :: Uri where
  "svgA = \<lparr>toString = ''file:///w/a.svg'', fsPath = ''/w/a.svg''\<rparr>"

definition svgB :: Uri where
  "svgB = \<lparr>toString = ''file:///w/b.svg'', fsPath = ''/w/b.svg''\<rparr>"

text \<open>An instance of the parameter \<open>isSvgUri\<close>: the path ends in \<^verbatim>\<open>.svg\<close>.\<close>

definition hasSvgExtension :: "Uri \<Rightarrow> bool" where
  "hasSvgExtension uri = (drop (length (fsPath uri) - 4) (fsPath uri) = ''.svg'')"

text \<open>A manager constructed with no active editor.\<close>

definition idle :: world where
  "idle = constructor hasSvgExtension None None (0, None)"

text \<open>Two restored previews, on \<open>svgA\<close> in column 1 and on \<open>svgB\<close> in column 2.\<close>

definition twoPreviews :: world where
  "twoPreviews = run hasSvgExtension idle
     [DeserializeWebviewPanel svgA (1, Some 1), DeserializeWebviewPanel svgB (2, Some 2)]"

text \<open>Two restored previews of the same document.\<close>

definition sameSource :: world where
  "sameSource = run hasSvgExtension idle
     [DeserializeWebviewPanel svgA (1, Some 1), DeserializeWebviewPanel svgA (2, Some 2)]"

section \<open>Properties\<close>

text \<open>A call during which nothing else runs, in one expression.\<close>

lemma showPreview_unfold:
  "showPreview s uri viewColumn np =
     (let preview = showPreview_target s viewColumn np;
          s1 = (case getPreviewOnTargetColumn s viewColumn of
                  Some p \<Rightarrow> s
                | None \<Rightarrow> createPreview s uri np);
          s2 = Preview_update s1 preview (Some uri)
      in panel_reveal s2 preview (panel_viewColumn (objects s2 preview)))"
  by (simp add: showPreview_def showPreview_enter_def showPreview_resume_def
        showPreview_continue_def showPreview_target_def Let_def split: option.splits)

lemmas focus_defs = onPreviewFocus_def onPreviewBlur_def setSvgPreviewFocusContext_def focusFlag_def

lemmas preview_defs = Preview_create_def Preview_update_def panel_reveal_def

lemmas manager_defs =
  showPreview_unfold showPreview_target_def createPreview_def registerPreview_def
  deserializeWebviewPanel_def onDispose_def onDidChangeViewState_def
  onDidChangeTextDocument_def onDidChangeActiveTextEditor_def
  shouldAutoOpenPreviewForEditor_def logAutoOpenPreviewEvent_def isActivePreviewUri_def
  getPreviewOf_def getPreviewOnTargetColumn_def constructor_def initial_def
  ViewColumn_Active_def ViewColumn_Beside_def

subsection \<open>The array operations\<close>

lemma indexOf_absent: "y \<notin> set xs \<Longrightarrow> indexOf xs y = - 1"
  by (induction xs) (auto simp: Let_def)

lemma indexOf_present: "y \<in> set xs \<Longrightarrow> 0 \<le> indexOf xs y \<and> indexOf xs y < int (length xs)"
  by (induction xs) (auto simp: Let_def)

text \<open>Removing at the index of a present element removes its first occurrence.\<close>

lemma splice1_indexOf: "y \<in> set xs \<Longrightarrow> splice1 (indexOf xs y) xs = remove1 y xs"
proof (induction xs)
  case Nil
  then show ?case by simp
next
  case (Cons x xs)
  show ?case
  proof (cases "x = y")
    case True
    then show ?thesis by (simp add: splice1_def)
  next
    case False
    with Cons.prems have mem: "y \<in> set xs" by simp
    from indexOf_present[OF mem]
    have b: "0 \<le> indexOf xs y" "indexOf xs y < int (length xs)" by auto
    from Cons.IH[OF mem] b
    have "take (nat (indexOf xs y)) xs @ drop (nat (indexOf xs y) + 1) xs = remove1 y xs"
      by (simp add: splice1_def Let_def min_def)
    with False b show ?thesis
      by (simp add: splice1_def Let_def min_def nat_add_distrib)
  qed
qed

text \<open>\<^verbatim>\<open>splice(-1, 1)\<close> removes the last element.\<close>

lemma splice1_minus_one: "splice1 (- 1) xs = butlast xs"
proof (cases xs rule: rev_cases)
  case Nil
  then show ?thesis by (simp add: splice1_def)
next
  case (snoc ys y)
  then show ?thesis by (simp add: splice1_def Let_def max_def)
qed

subsection \<open>The broadcast loop\<close>

lemma foldl_update_activePreview:
  "activePreview (foldl (\<lambda>w p. Preview_update w p r) s ps) = activePreview s"
  by (induction ps arbitrary: s) (simp_all add: Preview_update_def)

lemma foldl_update_contextKeys:
  "contextKeys (foldl (\<lambda>w p. Preview_update w p r) s ps) = contextKeys s"
  by (induction ps arbitrary: s) (simp_all add: Preview_update_def)

lemma foldl_update_previews:
  "previews (foldl (\<lambda>w p. Preview_update w p r) s ps) = previews s"
  by (induction ps arbitrary: s) (simp_all add: Preview_update_def)

lemma foldl_update_received:
  "received (foldl (\<lambda>w p. Preview_update w p r) s ps) = received s @ map (\<lambda>p. (p, Update r)) ps"
  by (induction ps arbitrary: s) (simp_all add: Preview_update_def)

subsection \<open>The focus flag follows the active preview\<close>

lemma showPreview_flag:
  "focusFlag s = (activePreview s \<noteq> None) \<Longrightarrow>
   focusFlag (showPreview s uri vc np) = (activePreview (showPreview s uri vc np) \<noteq> None)"
  by (simp add: showPreview_unfold showPreview_target_def createPreview_def registerPreview_def
        focus_defs preview_defs Let_def split: option.splits)

lemma broadcast_flag:
  "focusFlag s = (activePreview s \<noteq> None) \<Longrightarrow>
   focusFlag (foldl (\<lambda>w p. Preview_update w p r) s ps)
   = (activePreview (foldl (\<lambda>w p. Preview_update w p r) s ps) \<noteq> None)"
  by (simp add: focusFlag_def foldl_update_activePreview foldl_update_contextKeys)

lemma log_flag:
  "focusFlag s = (activePreview s \<noteq> None) \<Longrightarrow>
   focusFlag (logAutoOpenPreviewEvent s) = (activePreview (logAutoOpenPreviewEvent s) \<noteq> None)"
  by (simp add: focusFlag_def logAutoOpenPreviewEvent_def)

lemma onDidChangeActiveTextEditor_flag:
  assumes "focusFlag s = (activePreview s \<noteq> None)"
  shows "focusFlag (onDidChangeActiveTextEditor isSvgUri s editor np)
         = (activePreview (onDidChangeActiveTextEditor isSvgUri s editor np) \<noteq> None)"
proof (cases editor)
  case None
  with assms show ?thesis by (simp add: onDidChangeActiveTextEditor_def)
next
  case (Some ed)
  define s1 where
    "s1 = (if isSvgUri (document_uri ed) \<and> \<not> isActivePreviewUri s (document_uri ed)
           then foldl (\<lambda>w preview. Preview_update w preview (Some (document_uri ed)))
                  s (previews s)
           else s)"
  have i1: "focusFlag s1 = (activePreview s1 \<noteq> None)"
  proof (cases "isSvgUri (document_uri ed) \<and> \<not> isActivePreviewUri s (document_uri ed)")
    case True
    then have "s1 = foldl (\<lambda>w preview. Preview_update w preview (Some (document_uri ed)))
                      s (previews s)"
      by (simp add: s1_def)
    then show ?thesis using broadcast_flag[OF assms] by simp
  next
    case False
    then have "s1 = s" by (auto simp: s1_def)
    then show ?thesis using assms by simp
  qed
  have eq: "onDidChangeActiveTextEditor isSvgUri s editor np =
        (if shouldAutoOpenPreviewForEditor isSvgUri s1 ed
         then showPreview (logAutoOpenPreviewEvent s1) (document_uri ed) ViewColumn_Beside np
         else s1)"
    unfolding onDidChangeActiveTextEditor_def Some s1_def by (simp only: option.case Let_def)
  show ?thesis
  proof (cases "shouldAutoOpenPreviewForEditor isSvgUri s1 ed")
    case True
    then show ?thesis using showPreview_flag[OF log_flag[OF i1]] by (simp add: eq)
  next
    case False
    then show ?thesis using i1 by (simp add: eq)
  qed
qed

lemma step_flag:
  assumes "focusFlag s = (activePreview s \<noteq> None)"
  shows "focusFlag (step isSvgUri s e) = (activePreview (step isSvgUri s e) \<noteq> None)"
proof (cases e)
  case (DidChangeActiveTextEditor editor np)
  have "focusFlag (s\<lparr>activeTextEditor := editor\<rparr>)
        = (activePreview (s\<lparr>activeTextEditor := editor\<rparr>) \<noteq> None)"
    using assms by (simp add: focusFlag_def)
  from onDidChangeActiveTextEditor_flag[OF this] DidChangeActiveTextEditor
  show ?thesis by simp
next
  case (ShowPreview uri vc np)
  with showPreview_flag[OF assms] show ?thesis by simp
qed (use assms in \<open>simp_all add: deserializeWebviewPanel_def registerPreview_def onDispose_def
       onDidChangeViewState_def onDidChangeTextDocument_def focus_defs preview_defs Let_def
       split: option.splits\<close>)

lemma constructor_flag:
  "focusFlag (constructor isSvgUri editor cfg np)
   = (activePreview (constructor isSvgUri editor cfg np) \<noteq> None)"
proof -
  have i0: "focusFlag (logAutoOpenPreviewEvent (initial editor cfg))
            = (activePreview (logAutoOpenPreviewEvent (initial editor cfg)) \<noteq> None)"
    by (simp add: focusFlag_def logAutoOpenPreviewEvent_def initial_def)
  have i1: "focusFlag (initial editor cfg) = (activePreview (initial editor cfg) \<noteq> None)"
    by (simp add: focusFlag_def initial_def)
  show ?thesis
    using i1 showPreview_flag[OF i0]
    by (simp add: constructor_def Let_def split: option.splits)
qed

lemma run_flag:
  "focusFlag s = (activePreview s \<noteq> None) \<Longrightarrow>
   focusFlag (run isSvgUri s evs) = (activePreview (run isSvgUri s evs) \<noteq> None)"
  unfolding run_def
  by (induction evs arbitrary: s) (simp_all add: step_flag)

text \<open>
  Claim C3. In every state a constructed manager reaches, after any sequence of method
  calls, host events and preview callbacks, the context key \<^verbatim>\<open>svgPreviewFocus\<close> is
  true if and only if \<^verbatim>\<open>_activePreview\<close> is defined. The states compared are those
  between two handlers: \<^verbatim>\<open>onPreviewFocus\<close> and \<^verbatim>\<open>onPreviewBlur\<close> write the pointer and
  the key together and nothing else writes either.
\<close>

theorem focus_flag_iff_active:
  "focusFlag (run isSvgUri (constructor isSvgUri editor cfg np) evs)
   = (activePreview (run isSvgUri (constructor isSvgUri editor cfg np) evs) \<noteq> None)"
  by (rule run_flag[OF constructor_flag])

theorem focus_flag_iff_active_witness:
  "focusFlag (run hasSvgExtension (constructor hasSvgExtension None None (0, None))
      [DeserializeWebviewPanel svgA (1, Some 1)])
   \<and> activePreview (run hasSvgExtension (constructor hasSvgExtension None None (0, None))
      [DeserializeWebviewPanel svgA (1, Some 1)]) = Some 1"
  using focus_flag_iff_active[of hasSvgExtension None None "(0, None)"
      "[DeserializeWebviewPanel svgA (1, Some 1)]"]
  by (simp add: run_def manager_defs focus_defs preview_defs Let_def)

subsection \<open>Concrete worlds, evaluated\<close>

lemmas eval_defs = run_def manager_defs focus_defs preview_defs splice1_def Let_def

lemma idle_fields:
  "previews idle = []" "activePreview idle = None" "received idle = []"
  "activeTextEditor idle = None" "\<not> focusFlag idle"
  by (simp_all add: idle_def eval_defs)

lemma twoPreviews_fields:
  "previews twoPreviews = [1, 2]" "activePreview twoPreviews = Some 2" "focusFlag twoPreviews"
  "received twoPreviews = [(1, Update None), (2, Update None)]"
  "source (objects twoPreviews 1) = svgA" "source (objects twoPreviews 2) = svgB"
  "source (objects twoPreviews (Suc 0)) = svgA"
  by (simp_all add: twoPreviews_def idle_def eval_defs)

lemma sameSource_fields:
  "previews sameSource = [1, 2]" "activePreview sameSource = Some 2"
  "received sameSource = [(1, Update None), (2, Update None)]"
  "source (objects sameSource 1) = svgA" "source (objects sameSource 2) = svgA"
  "source (objects sameSource (Suc 0)) = svgA"
  by (simp_all add: sameSource_def idle_def eval_defs)

subsection \<open>Disposal of a preview\<close>

lemma onDispose_fields:
  "activePreview (onDispose s p) = None"
  "contextKeys (onDispose s p) = (contextKeys s)(svgPreviewFocusContextKey \<mapsto> False)"
  "objects (onDispose s p) = objects s"
  "received (onDispose s p) = received s"
  "\<not> focusFlag (onDispose s p)"
  by (simp_all add: onDispose_def focus_defs Let_def)

lemma onDispose_present:
  "p \<in> set (previews s) \<Longrightarrow> previews (onDispose s p) = remove1 p (previews s)"
  by (simp add: onDispose_def focus_defs Let_def splice1_indexOf)

lemma onDispose_absent:
  "p \<notin> set (previews s) \<Longrightarrow> previews (onDispose s p) = butlast (previews s)"
  by (simp add: onDispose_def focus_defs Let_def indexOf_absent splice1_minus_one)

text \<open>
  Claim C1, as stated, fails: the disposal callback calls \<^verbatim>\<open>onPreviewBlur\<close> whichever
  preview holds focus. With previews 1 and 2 tracked and 2 holding focus, the disposal of
  1 clears the pointer and the flag.
\<close>

theorem disposal_of_unfocused_counterexample:
  "1 \<in> set (previews twoPreviews) \<and> activePreview twoPreviews = Some 2 \<and> focusFlag twoPreviews
   \<and> activePreview (step hasSvgExtension twoPreviews (PreviewDisposed 1)) = None
   \<and> \<not> focusFlag (step hasSvgExtension twoPreviews (PreviewDisposed 1))"
  by (simp add: twoPreviews_fields onDispose_fields)

text \<open>
  Claim C1, amended. Firing the disposal event of a tracked preview \<open>p\<close>, whether it holds
  focus or not, leaves the active-preview pointer unset and the focus flag false; it
  removes the first occurrence of \<open>p\<close>, and only that, from the array and touches no
  preview object.
\<close>

theorem disposal_clears_focus:
  assumes "p \<in> set (previews s)"
  shows "activePreview (step isSvgUri s (PreviewDisposed p)) = None
       \<and> \<not> focusFlag (step isSvgUri s (PreviewDisposed p))
       \<and> previews (step isSvgUri s (PreviewDisposed p)) = remove1 p (previews s)
       \<and> objects (step isSvgUri s (PreviewDisposed p)) = objects s"
  using assms by (simp add: onDispose_fields onDispose_present)

theorem disposal_clears_focus_witness:
  "1 \<in> set (previews twoPreviews)
   \<and> activePreview (step hasSvgExtension twoPreviews (PreviewDisposed 1)) = None
   \<and> \<not> focusFlag (step hasSvgExtension twoPreviews (PreviewDisposed 1))
   \<and> previews (step hasSvgExtension twoPreviews (PreviewDisposed 1)) = [2]"
proof -
  have h: "1 \<in> set (previews twoPreviews)" by (simp add: twoPreviews_fields)
  from disposal_clears_focus[OF h, of hasSvgExtension] h show ?thesis
    by (simp add: twoPreviews_fields)
qed

text \<open>
  Claim C4. The second disposal of the same preview does not crash, but it is not a
  no-op: \<^verbatim>\<open>indexOf\<close> returns \<open>-1\<close> for the preview that is gone and
  \<^verbatim>\<open>splice(-1, 1)\<close> removes the last element of the array. With previews 1 and 2
  tracked, the first disposal of 1 leaves 2, the second leaves nothing.
\<close>

theorem second_disposal_evicts_last:
  "previews (run hasSvgExtension twoPreviews [PreviewDisposed 1]) = [2]
   \<and> previews (run hasSvgExtension twoPreviews [PreviewDisposed 1, PreviewDisposed 1]) = []"
  by (simp add: run_def onDispose_def focus_defs splice1_def Let_def twoPreviews_fields)

subsection \<open>No dangling focus\<close>

lemma showPreview_noDangling:
  "noDangling s \<Longrightarrow> noDangling (showPreview s uri vc np)"
  by (simp add: noDangling_def showPreview_unfold showPreview_target_def createPreview_def
        registerPreview_def focus_defs preview_defs Let_def split: option.splits)

lemma broadcast_noDangling:
  "noDangling s \<Longrightarrow> noDangling (foldl (\<lambda>w p. Preview_update w p r) s ps)"
  by (simp add: noDangling_def foldl_update_activePreview foldl_update_previews)

lemma log_noDangling: "noDangling s \<Longrightarrow> noDangling (logAutoOpenPreviewEvent s)"
  by (simp add: noDangling_def logAutoOpenPreviewEvent_def)

lemma onDidChangeActiveTextEditor_noDangling:
  assumes "noDangling s"
  shows "noDangling (onDidChangeActiveTextEditor isSvgUri s editor np)"
proof (cases editor)
  case None
  with assms show ?thesis by (simp add: onDidChangeActiveTextEditor_def)
next
  case (Some ed)
  define s1 where
    "s1 = (if isSvgUri (document_uri ed) \<and> \<not> isActivePreviewUri s (document_uri ed)
           then foldl (\<lambda>w preview. Preview_update w preview (Some (document_uri ed)))
                  s (previews s)
           else s)"
  have i1: "noDangling s1"
    using assms broadcast_noDangling[OF assms] by (auto simp: s1_def)
  have eq: "onDidChangeActiveTextEditor isSvgUri s editor np =
        (if shouldAutoOpenPreviewForEditor isSvgUri s1 ed
         then showPreview (logAutoOpenPreviewEvent s1) (document_uri ed) ViewColumn_Beside np
         else s1)"
    unfolding onDidChangeActiveTextEditor_def Some s1_def by (simp only: option.case Let_def)
  show ?thesis
    using i1 showPreview_noDangling[OF log_noDangling[OF i1]] by (auto simp: eq)
qed

lemma step_noDangling:
  assumes "noDangling s" and "viewStateFromTracked isSvgUri s [e]"
  shows "noDangling (step isSvgUri s e)"
proof (cases e)
  case (DidChangeActiveTextEditor editor np)
  have "noDangling (s\<lparr>activeTextEditor := editor\<rparr>)"
    using assms by (simp add: noDangling_def)
  from onDidChangeActiveTextEditor_noDangling[OF this] DidChangeActiveTextEditor
  show ?thesis by simp
next
  case (ShowPreview uri vc np)
  with showPreview_noDangling[OF assms(1)] show ?thesis by simp
next
  case (PreviewDisposed p)
  then show ?thesis by (simp add: noDangling_def onDispose_fields)
qed (use assms in \<open>simp_all add: noDangling_def deserializeWebviewPanel_def registerPreview_def
       onDidChangeViewState_def onDidChangeTextDocument_def focus_defs preview_defs Let_def
       split: option.splits if_splits\<close>)

lemma run_noDangling:
  "noDangling s \<Longrightarrow> viewStateFromTracked isSvgUri s evs \<Longrightarrow> noDangling (run isSvgUri s evs)"
  unfolding run_def
proof (induction evs arbitrary: s)
  case Nil
  then show ?case by simp
next
  case (Cons e es)
  from Cons.prems have "viewStateFromTracked isSvgUri s [e]" by simp
  from step_noDangling[OF Cons.prems(1) this] have "noDangling (step isSvgUri s e)" .
  moreover from Cons.prems have "viewStateFromTracked isSvgUri (step isSvgUri s e) es" by simp
  ultimately show ?case using Cons.IH by simp
qed

lemma constructor_noDangling: "noDangling (constructor isSvgUri editor cfg np)"
proof -
  have "noDangling (initial editor cfg)" by (simp add: noDangling_def initial_def)
  from this showPreview_noDangling[OF log_noDangling[OF this]]
  show ?thesis by (simp add: constructor_def Let_def split: option.splits)
qed

text \<open>
  Claim C2, as stated, fails: \<^verbatim>\<open>onPreviewFocus\<close> stores whichever preview reports its
  panel active and does not look it up in the array. A view-state event of a preview
  that was disposed of leaves the pointer on a preview that is no longer tracked.
\<close>

theorem dangling_focus_counterexample:
  "activePreview (run hasSvgExtension idle
      [DeserializeWebviewPanel svgA (1, Some 1), PreviewDisposed 1, PreviewViewState 1 True])
     = Some 1
   \<and> 1 \<notin> set (previews (run hasSvgExtension idle
      [DeserializeWebviewPanel svgA (1, Some 1), PreviewDisposed 1, PreviewViewState 1 True]))"
  by (simp add: idle_def eval_defs)

text \<open>
  Claim C2, amended. From the state the constructor leaves, after every sequence of
  method calls, host events, disposal events (of any preview, any number of times) and
  view-state events, in which each view-state event that reports its panel active comes
  from a preview tracked at that moment, \<^verbatim>\<open>_activePreview\<close>, when set, is an element of
  \<^verbatim>\<open>_previews\<close>.
\<close>

theorem active_preview_is_tracked:
  assumes "viewStateFromTracked isSvgUri (constructor isSvgUri editor cfg np) evs"
    and "activePreview (run isSvgUri (constructor isSvgUri editor cfg np) evs) = Some p"
  shows "p \<in> set (previews (run isSvgUri (constructor isSvgUri editor cfg np) evs))"
  using run_noDangling[OF constructor_noDangling assms(1)] assms(2)
  by (simp add: noDangling_def)

theorem active_preview_is_tracked_witness:
  "viewStateFromTracked hasSvgExtension (constructor hasSvgExtension None None (0, None))
     [DeserializeWebviewPanel svgA (1, Some 1), DeserializeWebviewPanel svgB (2, Some 2),
      PreviewViewState 1 True, PreviewDisposed 2, PreviewDisposed 2]
   \<and> activePreview (run hasSvgExtension (constructor hasSvgExtension None None (0, None))
     [DeserializeWebviewPanel svgA (1, Some 1), DeserializeWebviewPanel svgB (2, Some 2),
      PreviewViewState 1 True, PreviewDisposed 2, PreviewViewState 1 True]) = Some 1
   \<and> 1 \<in> set (previews (run hasSvgExtension (constructor hasSvgExtension None None (0, None))
     [DeserializeWebviewPanel svgA (1, Some 1), DeserializeWebviewPanel svgB (2, Some 2),
      PreviewViewState 1 True, PreviewDisposed 2, PreviewViewState 1 True]))"
proof -
  have h1: "viewStateFromTracked hasSvgExtension (constructor hasSvgExtension None None (0, None))
     [DeserializeWebviewPanel svgA (1, Some 1), DeserializeWebviewPanel svgB (2, Some 2),
      PreviewViewState 1 True, PreviewDisposed 2, PreviewViewState 1 True]"
    by (simp add: eval_defs)
  have h2: "activePreview (run hasSvgExtension (constructor hasSvgExtension None None (0, None))
     [DeserializeWebviewPanel svgA (1, Some 1), DeserializeWebviewPanel svgB (2, Some 2),
      PreviewViewState 1 True, PreviewDisposed 2, PreviewViewState 1 True]) = Some 1"
    by (simp add: eval_defs)
  have h3: "viewStateFromTracked hasSvgExtension (constructor hasSvgExtension None None (0, None))
     [DeserializeWebviewPanel svgA (1, Some 1), DeserializeWebviewPanel svgB (2, Some 2),
      PreviewViewState 1 True, PreviewDisposed 2, PreviewDisposed 2]"
    by (simp add: eval_defs)
  from active_preview_is_tracked[OF h1 h2] h2 h3 show ?thesis by simp
qed

subsection \<open>The lookup by target column\<close>

lemma find_False: "List.find (\<lambda>p. False) xs = None"
  by (simp add: find_None_iff)

lemma getPreviewOnTargetColumn_find:
  "getPreviewOnTargetColumn s vc =
     List.find (\<lambda>p. onTargetColumn s vc (panel_viewColumn (objects s p))) (previews s)"
  by (simp add: getPreviewOnTargetColumn_def onTargetColumn_def Let_def find_False
        split: option.splits)

lemma onTargetColumn_editor:
  "activeTextEditor s' = activeTextEditor s \<Longrightarrow> onTargetColumn s' vc = onTargetColumn s vc"
  by (simp add: onTargetColumn_def fun_eq_iff)

lemma onTargetColumn_resolution:
  "activeTextEditor s = Some ed \<Longrightarrow> editor_viewColumn ed = Some c \<Longrightarrow>
   onTargetColumn s vc col = (col = Some (if vc = ViewColumn_Active then c else c + 1))"
  by (simp add: onTargetColumn_def)

lemma showPreview_editor:
  "activeTextEditor (showPreview s uri vc np) = activeTextEditor s"
  by (simp add: showPreview_unfold showPreview_target_def createPreview_def registerPreview_def
        focus_defs preview_defs Let_def split: option.splits)

lemma showPreview_received:
  "received (showPreview s uri vc np) =
     received s @ [(showPreview_target s vc np, Update (Some uri)),
                   (showPreview_target s vc np,
                    Reveal (panel_viewColumn (objects (showPreview s uri vc np)
                                               (showPreview_target s vc np))))]"
  by (simp add: showPreview_unfold showPreview_target_def createPreview_def registerPreview_def
        focus_defs preview_defs Let_def split: option.splits)

lemma showPreview_found:
  assumes "getPreviewOnTargetColumn s vc = Some p"
  shows "previews (showPreview s uri vc np) = previews s"
    and "panel_viewColumn (objects (showPreview s uri vc np) x) = panel_viewColumn (objects s x)"
    and "showPreview_target s vc np = p"
  using assms by (simp_all add: showPreview_unfold showPreview_target_def Let_def preview_defs)

lemma showPreview_created:
  assumes "getPreviewOnTargetColumn s vc = None"
  shows "previews (showPreview s uri vc np) = previews s @ [fst np]"
    and "panel_viewColumn (objects (showPreview s uri vc np) (fst np)) = snd np"
    and "x \<noteq> fst np \<Longrightarrow>
         panel_viewColumn (objects (showPreview s uri vc np) x) = panel_viewColumn (objects s x)"
    and "showPreview_target s vc np = fst np"
  using assms
  by (simp_all add: showPreview_unfold showPreview_target_def createPreview_def registerPreview_def
        focus_defs preview_defs Let_def)

text \<open>The preview a call found is found again by the next call.\<close>

lemma second_lookup_after_found:
  assumes "getPreviewOnTargetColumn s vc = Some p"
  shows "getPreviewOnTargetColumn (showPreview s uri vc np) vc = Some p"
  using assms
  by (simp add: getPreviewOnTargetColumn_find showPreview_found[OF assms]
        onTargetColumn_editor[OF showPreview_editor])

lemma find_snoc_fresh:
  assumes "\<forall>x \<in> set xs. x \<noteq> y \<longrightarrow> \<not> P x"
  shows "List.find P (xs @ [y]) = (if P y then Some y else None)"
  using assms by (induction xs) auto

text \<open>
  The preview a call created is found by the next call exactly when the host put its
  panel in the column the token resolves to.
\<close>

lemma second_lookup_after_created:
  assumes "getPreviewOnTargetColumn s vc = None"
  shows "getPreviewOnTargetColumn (showPreview s uri vc np) vc
         = (if onTargetColumn s vc (snd np) then Some (fst np) else None)"
proof -
  let ?s1 = "showPreview s uri vc np"
  let ?P = "\<lambda>p. onTargetColumn s vc (panel_viewColumn (objects ?s1 p))"
  from assms
  have no: "\<forall>x \<in> set (previews s). \<not> onTargetColumn s vc (panel_viewColumn (objects s x))"
    by (simp add: getPreviewOnTargetColumn_find find_None_iff)
  have "\<forall>x \<in> set (previews s). x \<noteq> fst np \<longrightarrow> \<not> ?P x"
    using no by (simp add: showPreview_created(3)[OF assms])
  from find_snoc_fresh[of "previews s" "fst np" ?P, OF this]
  show ?thesis
    by (simp add: getPreviewOnTargetColumn_find showPreview_created(1,2)[OF assms]
          onTargetColumn_editor[OF showPreview_editor])
qed

text \<open>Two calls that overlap both miss the lookup and both create.\<close>

lemma showPreview_resume_previews:
  "previews (showPreview_resume s uri np) = previews s @ [fst np]"
  by (simp add: showPreview_resume_def showPreview_continue_def createPreview_def
        registerPreview_def focus_defs preview_defs Let_def)

lemma showPreview_overlapped_miss:
  assumes "getPreviewOnTargetColumn s vc = None"
  shows "previews (showPreview_overlapped s uri uri' vc np np') = previews s @ [fst np, fst np']"
  using assms
  by (simp add: showPreview_overlapped_def showPreview_enter_def showPreview_resume_previews)

text \<open>
  Claim C5, as stated, fails in its last part: two successive calls for the same token
  can create two previews. With an active editor that has no view column the token
  \<^verbatim>\<open>Beside\<close> resolves to \<^verbatim>\<open>undefined + 1\<close>, which no panel column equals; with no
  active editor the token \<^verbatim>\<open>Active\<close> resolves to \<open>-1\<close>, and the created panel sits in
  a real column. And with an editor in column 1 and the created panel in column 2, where
  the token \<^verbatim>\<open>Beside\<close> resolves to, a second call entered before
  \<^verbatim>\<open>Preview.create\<close> of the first has resolved creates a second preview all the same.
\<close>

theorem showPreview_twice_counterexample:
  "previews (run hasSvgExtension
      (constructor hasSvgExtension (Some \<lparr>document_uri = svgA, editor_viewColumn = None\<rparr>) None (0, None))
      [ShowPreview svgA ViewColumn_Beside (1, Some 2), ShowPreview svgA ViewColumn_Beside (2, Some 2)])
     = [1, 2]
   \<and> previews (run hasSvgExtension idle
      [ShowPreview svgA ViewColumn_Active (1, Some 1), ShowPreview svgA ViewColumn_Active (2, Some 1)])
     = [1, 2]
   \<and> previews (showPreview_overlapped
        (initial (Some \<lparr>document_uri = svgA, editor_viewColumn = Some 1\<rparr>) None)
        svgA svgA ViewColumn_Beside (1, Some 2) (2, Some 2))
     = [1, 2]"
  by (simp add: idle_def eval_defs showPreview_overlapped_def showPreview_enter_def
        showPreview_resume_def showPreview_continue_def)

text \<open>
  Claim C5, amended. \<^verbatim>\<open>showPreview\<close> operates on the first preview of the array (the
  one of least index) whose panel is on the resolved target column when there is one, and
  then creates nothing; otherwise it creates a preview, appends it and operates on it. In
  both cases the preview operated on receives \<^verbatim>\<open>update(uri)\<close> and then \<^verbatim>\<open>reveal\<close>
  with its own column. With an active editor in column \<open>c\<close>, the target column is \<open>c\<close>
  for the token \<^verbatim>\<open>Active\<close> and \<open>c + 1\<close> for any other token; with an active editor
  that has no column, only the token \<^verbatim>\<open>Active\<close> has a target, the panels without a
  column; with no active editor the target is \<open>-1\<close> for \<^verbatim>\<open>Active\<close> and \<open>0\<close>
  otherwise. A second call for the same token that is entered after the first has run to
  its end (the preview it created, if any, registered) operates on the same instance and
  creates nothing, provided the first call found a preview or the host placed the created
  panel on the resolved target column; a created preview is found again in no other case.
  A second call entered while the first still awaits \<^verbatim>\<open>Preview.create\<close> misses the
  lookup as the first did, and both calls create a preview.
\<close>

theorem showPreview_reuses_target_column:
  "(\<forall>p. getPreviewOnTargetColumn s vc = Some p \<longrightarrow>
        (\<exists>i < length (previews s). previews s ! i = p
            \<and> onTargetColumn s vc (panel_viewColumn (objects s (previews s ! i)))
            \<and> (\<forall>j < i. \<not> onTargetColumn s vc (panel_viewColumn (objects s (previews s ! j)))))
        \<and> showPreview_target s vc np = p
        \<and> previews (showPreview s uri vc np) = previews s)
   \<and> (getPreviewOnTargetColumn s vc = None \<longrightarrow>
        (\<forall>p \<in> set (previews s). \<not> onTargetColumn s vc (panel_viewColumn (objects s p)))
        \<and> showPreview_target s vc np = fst np
        \<and> previews (showPreview s uri vc np) = previews s @ [fst np]
        \<and> getPreviewOnTargetColumn (showPreview s uri vc np) vc
            = (if onTargetColumn s vc (snd np) then Some (fst np) else None)
        \<and> previews (showPreview_overlapped s uri uri' vc np np') = previews s @ [fst np, fst np'])
   \<and> received (showPreview s uri vc np)
        = received s @ [(showPreview_target s vc np, Update (Some uri)),
                        (showPreview_target s vc np,
                         Reveal (panel_viewColumn (objects (showPreview s uri vc np)
                                                    (showPreview_target s vc np))))]
   \<and> (\<forall>ed c col. activeTextEditor s = Some ed \<and> editor_viewColumn ed = Some c \<longrightarrow>
        onTargetColumn s vc col = (col = Some (if vc = ViewColumn_Active then c else c + 1)))
   \<and> (\<forall>ed col. activeTextEditor s = Some ed \<and> editor_viewColumn ed = None \<longrightarrow>
        onTargetColumn s vc col = (vc = ViewColumn_Active \<and> col = None))
   \<and> (\<forall>col. activeTextEditor s = None \<longrightarrow>
        onTargetColumn s vc col = (col = Some (if vc = ViewColumn_Active then - 1 else 0)))
   \<and> (getPreviewOnTargetColumn s vc \<noteq> None \<or> onTargetColumn s vc (snd np) \<longrightarrow>
        showPreview_target (showPreview s uri vc np) vc np' = showPreview_target s vc np
        \<and> previews (showPreview (showPreview s uri vc np) uri' vc np')
            = previews (showPreview s uri vc np))"
proof (intro conjI allI impI)
  fix p assume f: "getPreviewOnTargetColumn s vc = Some p"
  then show "\<exists>i < length (previews s). previews s ! i = p
            \<and> onTargetColumn s vc (panel_viewColumn (objects s (previews s ! i)))
            \<and> (\<forall>j < i. \<not> onTargetColumn s vc (panel_viewColumn (objects s (previews s ! j))))"
    unfolding getPreviewOnTargetColumn_find find_Some_iff by blast
  from f show "showPreview_target s vc np = p" "previews (showPreview s uri vc np) = previews s"
    by (simp_all add: showPreview_found)
next
  assume n: "getPreviewOnTargetColumn s vc = None"
  then show "\<forall>p \<in> set (previews s). \<not> onTargetColumn s vc (panel_viewColumn (objects s p))"
    by (simp add: getPreviewOnTargetColumn_find find_None_iff)
  from n show "showPreview_target s vc np = fst np"
    "previews (showPreview s uri vc np) = previews s @ [fst np]"
    by (simp_all add: showPreview_created)
  from n show "getPreviewOnTargetColumn (showPreview s uri vc np) vc
            = (if onTargetColumn s vc (snd np) then Some (fst np) else None)"
    by (rule second_lookup_after_created)
  from n show "previews (showPreview_overlapped s uri uri' vc np np') = previews s @ [fst np, fst np']"
    by (rule showPreview_overlapped_miss)
next
  show "received (showPreview s uri vc np)
        = received s @ [(showPreview_target s vc np, Update (Some uri)),
                        (showPreview_target s vc np,
                         Reveal (panel_viewColumn (objects (showPreview s uri vc np)
                                                    (showPreview_target s vc np))))]"
    by (rule showPreview_received)
next
  fix ed c col
  assume "activeTextEditor s = Some ed \<and> editor_viewColumn ed = Some c"
  then show "onTargetColumn s vc col = (col = Some (if vc = ViewColumn_Active then c else c + 1))"
    by (simp add: onTargetColumn_resolution)
next
  fix ed col
  assume "activeTextEditor s = Some ed \<and> editor_viewColumn ed = None"
  then show "onTargetColumn s vc col = (vc = ViewColumn_Active \<and> col = None)"
    by (auto simp: onTargetColumn_def)
next
  fix col
  assume "activeTextEditor s = None"
  then show "onTargetColumn s vc col = (col = Some (if vc = ViewColumn_Active then - 1 else 0))"
    by (simp add: onTargetColumn_def ViewColumn_Active_def)
next
  assume h: "getPreviewOnTargetColumn s vc \<noteq> None \<or> onTargetColumn s vc (snd np)"
  have "getPreviewOnTargetColumn (showPreview s uri vc np) vc = Some (showPreview_target s vc np)"
  proof (cases "getPreviewOnTargetColumn s vc")
    case None
    with h second_lookup_after_created[OF None] show ?thesis
      by (simp add: showPreview_created(4))
  next
    case (Some p)
    with second_lookup_after_found[OF Some] show ?thesis
      by (simp add: showPreview_found(3))
  qed
  then show "showPreview_target (showPreview s uri vc np) vc np' = showPreview_target s vc np"
    "previews (showPreview (showPreview s uri vc np) uri' vc np') = previews (showPreview s uri vc np)"
    by (simp_all add: showPreview_found)
qed

text \<open>
  An editor on \<open>svgA\<close> in column 1, no preview yet: the first call for \<^verbatim>\<open>Beside\<close>
  creates preview 1 in column 2; a second call entered after it finds preview 1 there
  and creates nothing, one entered before it resolved creates preview 2. In the world
  the first call leaves, where the lookup finds preview 1 at index 0, a further call
  operates on it.
\<close>

theorem showPreview_reuses_target_column_witness:
  "getPreviewOnTargetColumn
      (initial (Some \<lparr>document_uri = svgA, editor_viewColumn = Some 1\<rparr>) None) ViewColumn_Beside = None
   \<and> onTargetColumn
      (initial (Some \<lparr>document_uri = svgA, editor_viewColumn = Some 1\<rparr>) None) ViewColumn_Beside (Some 2)
   \<and> previews (showPreview
        (initial (Some \<lparr>document_uri = svgA, editor_viewColumn = Some 1\<rparr>) None)
        svgA ViewColumn_Beside (1, Some 2)) = [1]
   \<and> showPreview_target (showPreview
        (initial (Some \<lparr>document_uri = svgA, editor_viewColumn = Some 1\<rparr>) None)
        svgA ViewColumn_Beside (1, Some 2)) ViewColumn_Beside (2, Some 2) = 1
   \<and> previews (showPreview (showPreview
        (initial (Some \<lparr>document_uri = svgA, editor_viewColumn = Some 1\<rparr>) None)
        svgA ViewColumn_Beside (1, Some 2)) svgB ViewColumn_Beside (2, Some 2)) = [1]
   \<and> previews (showPreview_overlapped
        (initial (Some \<lparr>document_uri = svgA, editor_viewColumn = Some 1\<rparr>) None)
        svgA svgB ViewColumn_Beside (1, Some 2) (2, Some 2)) = [1, 2]
   \<and> getPreviewOnTargetColumn (showPreview
        (initial (Some \<lparr>document_uri = svgA, editor_viewColumn = Some 1\<rparr>) None)
        svgA ViewColumn_Beside (1, Some 2)) ViewColumn_Beside = Some 1
   \<and> showPreview_target (showPreview
        (initial (Some \<lparr>document_uri = svgA, editor_viewColumn = Some 1\<rparr>) None)
        svgA ViewColumn_Beside (1, Some 2)) ViewColumn_Beside (3, Some 2) = 1
   \<and> previews (showPreview (showPreview
        (initial (Some \<lparr>document_uri = svgA, editor_viewColumn = Some 1\<rparr>) None)
        svgA ViewColumn_Beside (1, Some 2)) svgA ViewColumn_Beside (3, Some 2)) = [1]"
proof -
  let ?s = "initial (Some \<lparr>document_uri = svgA, editor_viewColumn = Some 1\<rparr>) None"
  let ?s1 = "showPreview ?s svgA ViewColumn_Beside (1, Some 2)"
  have n: "getPreviewOnTargetColumn ?s ViewColumn_Beside = None"
    by (simp add: manager_defs)
  have t: "onTargetColumn ?s ViewColumn_Beside (Some 2)"
    by (simp add: onTargetColumn_def manager_defs)
  have p: "previews ?s = []" by (simp add: initial_def)
  from showPreview_reuses_target_column[where s = ?s and vc = ViewColumn_Beside and np = "(1, Some 2)"
      and uri = svgA and uri' = svgB and np' = "(2, Some 2)"]
    n t p
  have first: "previews ?s1 = [1]"
    "showPreview_target ?s1 ViewColumn_Beside (2, Some 2) = 1"
    "previews (showPreview ?s1 svgB ViewColumn_Beside (2, Some 2)) = [1]"
    "previews (showPreview_overlapped ?s svgA svgB ViewColumn_Beside (1, Some 2) (2, Some 2)) = [1, 2]"
    "getPreviewOnTargetColumn ?s1 ViewColumn_Beside = Some 1"
    by simp_all
  from showPreview_reuses_target_column[where s = ?s1 and vc = ViewColumn_Beside and np = "(3, Some 2)"
      and uri = svgA and uri' = svgA and np' = "(4, Some 2)"]
    first(1,5)
  have second: "showPreview_target ?s1 ViewColumn_Beside (3, Some 2) = 1"
    "previews (showPreview ?s1 svgA ViewColumn_Beside (3, Some 2)) = [1]"
    by simp_all
  from n t first second show ?thesis by simp
qed

subsection \<open>Active editor changed\<close>

text \<open>
  Claim C6. The handler does nothing for an undefined editor. For an editor whose
  document is previewable and is not the source of the active preview (there is none, or
  its source prints differently), every preview of the array receives
  \<^verbatim>\<open>update(uri)\<close> with the document's URI, in the order of the array, before anything
  else the handler does (\<open>rest\<close> is the auto-open that may follow).
\<close>

theorem active_editor_changed_broadcast:
  "onDidChangeActiveTextEditor isSvgUri s None np = s
   \<and> (isSvgUri (document_uri ed)
        \<and> (\<forall>p. activePreview s = Some p
               \<longrightarrow> toString (source (objects s p)) \<noteq> toString (document_uri ed))
      \<longrightarrow> (\<exists>rest. received (onDidChangeActiveTextEditor isSvgUri s (Some ed) np)
             = received s @ map (\<lambda>p. (p, Update (Some (document_uri ed)))) (previews s) @ rest))"
proof (intro conjI impI)
  show "onDidChangeActiveTextEditor isSvgUri s None np = s"
    by (simp add: onDidChangeActiveTextEditor_def)
next
  assume a: "isSvgUri (document_uri ed)
        \<and> (\<forall>p. activePreview s = Some p
               \<longrightarrow> toString (source (objects s p)) \<noteq> toString (document_uri ed))"
  then have c: "isSvgUri (document_uri ed) \<and> \<not> isActivePreviewUri s (document_uri ed)"
    by (auto simp: isActivePreviewUri_def split: option.splits)
  define s1 where
    "s1 = foldl (\<lambda>w preview. Preview_update w preview (Some (document_uri ed))) s (previews s)"
  have r1: "received s1 = received s @ map (\<lambda>p. (p, Update (Some (document_uri ed)))) (previews s)"
    by (simp add: s1_def foldl_update_received)
  have eq: "onDidChangeActiveTextEditor isSvgUri s (Some ed) np =
        (if shouldAutoOpenPreviewForEditor isSvgUri s1 ed
         then showPreview (logAutoOpenPreviewEvent s1) (document_uri ed) ViewColumn_Beside np
         else s1)"
    using c by (simp add: onDidChangeActiveTextEditor_def s1_def Let_def)
  show "\<exists>rest. received (onDidChangeActiveTextEditor isSvgUri s (Some ed) np)
             = received s @ map (\<lambda>p. (p, Update (Some (document_uri ed)))) (previews s) @ rest"
  proof (cases "shouldAutoOpenPreviewForEditor isSvgUri s1 ed")
    case True
    then show ?thesis
      by (simp add: eq showPreview_received r1 logAutoOpenPreviewEvent_def)
  next
    case False
    then show ?thesis by (simp add: eq r1)
  qed
qed

text \<open>
  Previews 1 (on \<open>svgA\<close>) and 2 (on \<open>svgB\<close>, active); the editor moves to \<open>svgA\<close>: both
  previews are told to render \<open>svgA\<close>.
\<close>

theorem active_editor_changed_broadcast_witness:
  "hasSvgExtension svgA
   \<and> activePreview twoPreviews = Some 2
   \<and> toString (source (objects twoPreviews 2)) \<noteq> toString svgA
   \<and> onDidChangeActiveTextEditor hasSvgExtension twoPreviews None (3, Some 2) = twoPreviews
   \<and> received (onDidChangeActiveTextEditor hasSvgExtension twoPreviews
        (Some \<lparr>document_uri = svgA, editor_viewColumn = Some 1\<rparr>) (3, Some 2))
      = received twoPreviews @ [(1, Update (Some svgA)), (2, Update (Some svgA))]"
proof -
  have r: "received (onDidChangeActiveTextEditor hasSvgExtension twoPreviews
        (Some \<lparr>document_uri = svgA, editor_viewColumn = Some 1\<rparr>) (3, Some 2))
      = received twoPreviews @ [(1, Update (Some svgA)), (2, Update (Some svgA))]"
    by (simp add: twoPreviews_fields onDidChangeActiveTextEditor_def isActivePreviewUri_def
          shouldAutoOpenPreviewForEditor_def Preview_update_def hasSvgExtension_def svgA_def svgB_def
          twoPreviews_def idle_def constructor_def initial_def run_def
          deserializeWebviewPanel_def registerPreview_def Preview_create_def focus_defs)
  from active_editor_changed_broadcast[of hasSvgExtension twoPreviews "(3, Some 2)"
      "\<lparr>document_uri = svgA, editor_viewColumn = Some 1\<rparr>"] r
  show ?thesis
    by (simp add: twoPreviews_fields hasSvgExtension_def svgA_def svgB_def)
qed

subsection \<open>Document changed\<close>

lemma update_None: "Preview_update s p None = s\<lparr>received := received s @ [(p, Update None)]\<rparr>"
  by (simp add: Preview_update_def)

text \<open>
  Claim C7. When no tracked preview has a source with the path of the changed document,
  the handler leaves the world as it is (and, being total, raises nothing). When one has,
  the handler calls \<^verbatim>\<open>update()\<close>, with no URI, on one tracked preview whose source has
  that path, and does nothing else.
\<close>

theorem document_changed_updates_match:
  "((\<forall>p \<in> set (previews s). fsPath (source (objects s p)) \<noteq> fsPath uri)
      \<longrightarrow> onDidChangeTextDocument s uri = s)
   \<and> ((\<exists>p \<in> set (previews s). fsPath (source (objects s p)) = fsPath uri)
      \<longrightarrow> (\<exists>q \<in> set (previews s). fsPath (source (objects s q)) = fsPath uri
            \<and> onDidChangeTextDocument s uri = s\<lparr>received := received s @ [(q, Update None)]\<rparr>))"
proof (intro conjI impI)
  assume "\<forall>p \<in> set (previews s). fsPath (source (objects s p)) \<noteq> fsPath uri"
  then have "getPreviewOf s uri = None"
    by (simp add: getPreviewOf_def find_None_iff)
  then show "onDidChangeTextDocument s uri = s"
    by (simp add: onDidChangeTextDocument_def)
next
  assume "\<exists>p \<in> set (previews s). fsPath (source (objects s p)) = fsPath uri"
  then obtain q where q: "getPreviewOf s uri = Some q"
    by (cases "getPreviewOf s uri") (auto simp: getPreviewOf_def find_None_iff)
  then have "q \<in> set (previews s)" "fsPath (source (objects s q)) = fsPath uri"
    by (auto simp: getPreviewOf_def find_Some_iff)
  moreover from q
  have "onDidChangeTextDocument s uri = s\<lparr>received := received s @ [(q, Update None)]\<rparr>"
    by (simp add: onDidChangeTextDocument_def update_None)
  ultimately
  show "\<exists>q \<in> set (previews s). fsPath (source (objects s q)) = fsPath uri
            \<and> onDidChangeTextDocument s uri = s\<lparr>received := received s @ [(q, Update None)]\<rparr>"
    by blast
qed

text \<open>
  With no preview at all a change of \<open>svgA\<close> does nothing; with previews on \<open>svgA\<close> and
  \<open>svgB\<close>, a change of \<open>svgB\<close> reaches preview 2.
\<close>

theorem document_changed_updates_match_witness:
  "onDidChangeTextDocument idle svgA = idle
   \<and> received (onDidChangeTextDocument twoPreviews svgB)
      = received twoPreviews @ [(2, Update None)]"
proof -
  have n: "\<forall>p \<in> set (previews idle). fsPath (source (objects idle p)) \<noteq> fsPath svgA"
    by (simp add: idle_fields)
  have r: "received (onDidChangeTextDocument twoPreviews svgB)
      = received twoPreviews @ [(2, Update None)]"
    by (simp add: onDidChangeTextDocument_def getPreviewOf_def twoPreviews_fields
          Preview_update_def svgA_def svgB_def)
  from document_changed_updates_match[of idle svgA] n r show ?thesis by simp
qed

text \<open>
  Claim C10. When the preview at index \<open>i\<close> of the array is the first whose source has
  the path of the changed document, the handler calls \<^verbatim>\<open>update()\<close> on it and on no
  other preview, whatever the sources of the previews after it: the array is in
  registration order, since \<^verbatim>\<open>registerPreview\<close> appends.
\<close>

theorem document_changed_first_match_only:
  assumes "i < length (previews s)"
    and "fsPath (source (objects s (previews s ! i))) = fsPath uri"
    and "\<forall>j < i. fsPath (source (objects s (previews s ! j))) \<noteq> fsPath uri"
  shows "onDidChangeTextDocument s uri
           = s\<lparr>received := received s @ [(previews s ! i, Update None)]\<rparr>
       \<and> (\<forall>q c. q \<noteq> previews s ! i
             \<longrightarrow> (q, c) \<notin> set (drop (length (received s))
                                (received (onDidChangeTextDocument s uri))))"
proof -
  from assms have "getPreviewOf s uri = Some (previews s ! i)"
    unfolding getPreviewOf_def find_Some_iff by blast
  then have "onDidChangeTextDocument s uri
               = s\<lparr>received := received s @ [(previews s ! i, Update None)]\<rparr>"
    by (simp add: onDidChangeTextDocument_def update_None)
  then show ?thesis by simp
qed

text \<open>Previews 1 and 2 both show \<open>svgA\<close>; a change of \<open>svgA\<close> reaches preview 1 only.\<close>

theorem document_changed_first_match_only_witness:
  "fsPath (source (objects sameSource 1)) = fsPath svgA
   \<and> fsPath (source (objects sameSource 2)) = fsPath svgA
   \<and> previews sameSource = [1, 2]
   \<and> drop (length (received sameSource)) (received (onDidChangeTextDocument sameSource svgA))
      = [(1, Update None)]
   \<and> (2, Update None) \<notin> set (drop (length (received sameSource))
                               (received (onDidChangeTextDocument sameSource svgA)))"
proof -
  have a: "0 < length (previews sameSource)"
    and b: "fsPath (source (objects sameSource (previews sameSource ! 0))) = fsPath svgA"
    and c: "\<forall>j < (0::nat). fsPath (source (objects sameSource (previews sameSource ! j))) \<noteq> fsPath svgA"
    by (simp_all add: sameSource_fields)
  from document_changed_first_match_only[OF a b c] show ?thesis
    by (simp add: sameSource_fields)
qed

subsection \<open>Show source\<close>

text \<open>
  Claim C8, as stated, fails: with no active preview \<^verbatim>\<open>showSource\<close> throws, itself and
  synchronously, before it calls \<^verbatim>\<open>openTextDocument\<close>; no promise is involved.
\<close>

theorem showSource_counterexample:
  "activePreview idle = None \<and> showSource idle = Inl TypeError"
  by (simp add: showSource_def idle_fields)

text \<open>
  Claim C8, amended. \<^verbatim>\<open>showSource\<close> has no guard: it throws a \<^verbatim>\<open>TypeError\<close>, before
  any call of \<^verbatim>\<open>openTextDocument\<close>, exactly when there is no active preview; with an
  active preview it calls \<^verbatim>\<open>openTextDocument\<close> with the source of that preview.
\<close>

theorem showSource_throws_iff_no_active:
  "(showSource s = Inl TypeError) = (activePreview s = None)
   \<and> (\<forall>p. activePreview s = Some p \<longrightarrow> showSource s = Inr (source (objects s p)))"
  by (simp add: showSource_def split: option.splits)

theorem showSource_throws_iff_no_active_witness:
  "activePreview twoPreviews = Some 2 \<and> showSource twoPreviews = Inr svgB"
  using showSource_throws_iff_no_active[of twoPreviews]
  by (simp add: twoPreviews_fields)

subsection \<open>Auto-open at construction\<close>

text \<open>
  Claim C9. The constructor opens a preview exactly when there is an active editor, the
  setting is on, the editor's document is previewable and no tracked preview has the
  document's path (at construction none is tracked, so this last test always passes). In
  that case it sends one telemetry event with the payload \<^verbatim>\<open>{autoOpen: 'yes'}\<close> and the
  created preview receives \<^verbatim>\<open>update\<close> with the document's URI and \<^verbatim>\<open>reveal\<close>;
  otherwise it sends none and creates none. With no active editor nothing is created.
\<close>

theorem constructor_auto_open:
  "previews (constructor isSvgUri editor cfg np)
     = (if (\<exists>ed. editor = Some ed \<and> cfg = Some True \<and> isSvgUri (document_uri ed)
                 \<and> getPreviewOf (initial editor cfg) (document_uri ed) = None)
        then [fst np] else [])
   \<and> telemetry (constructor isSvgUri editor cfg np)
     = (if (\<exists>ed. editor = Some ed \<and> cfg = Some True \<and> isSvgUri (document_uri ed)
                 \<and> getPreviewOf (initial editor cfg) (document_uri ed) = None)
        then [(TELEMETRY_EVENT_SHOW_PREVIEW_TO_SIDE, [(''autoOpen'', ''yes'')])] else [])
   \<and> received (constructor isSvgUri editor cfg np)
     = (case editor of
          None \<Rightarrow> []
        | Some ed \<Rightarrow>
            if cfg = Some True \<and> isSvgUri (document_uri ed)
            then [(fst np, Update (Some (document_uri ed))), (fst np, Reveal (snd np))]
            else [])
   \<and> constructor isSvgUri None cfg np = initial None cfg"
  by (cases editor)
     (simp_all add: constructor_def initial_def shouldAutoOpenPreviewForEditor_def
        getPreviewOf_def getPreviewOnTargetColumn_def showPreview_unfold showPreview_target_def
        createPreview_def registerPreview_def logAutoOpenPreviewEvent_def focus_defs
        preview_defs Let_def split: option.splits)

theorem constructor_auto_open_witness:
  "previews (constructor hasSvgExtension
      (Some \<lparr>document_uri = svgA, editor_viewColumn = Some 1\<rparr>) (Some True) (1, Some 2)) = [1]
   \<and> telemetry (constructor hasSvgExtension
      (Some \<lparr>document_uri = svgA, editor_viewColumn = Some 1\<rparr>) (Some True) (1, Some 2))
     = [(TELEMETRY_EVENT_SHOW_PREVIEW_TO_SIDE, [(''autoOpen'', ''yes'')])]
   \<and> previews (constructor hasSvgExtension
      (Some \<lparr>document_uri = svgA, editor_viewColumn = Some 1\<rparr>) (Some False) (1, Some 2)) = []
   \<and> previews (constructor hasSvgExtension None (Some True) (1, Some 2)) = []"
  using constructor_auto_open[of hasSvgExtension
          "Some \<lparr>document_uri = svgA, editor_viewColumn = Some 1\<rparr>" "Some True" "(1, Some 2)"]
        constructor_auto_open[of hasSvgExtension
          "Some \<lparr>document_uri = svgA, editor_viewColumn = Some 1\<rparr>" "Some False" "(1, Some 2)"]
        constructor_auto_open[of hasSvgExtension None "Some True" "(1, Some 2)"]
  by (simp add: hasSvgExtension_def svgA_def getPreviewOf_def initial_def)

end
